theory Spec2Isabelle
  imports Main "HOL-Library.Word" "HOL-Library.Sublist"
begin

section \<open>JavaScript strings and values\<close>

text \<open>
  The program is the build script \<^verbatim>\<open>tools/build.mjs\<close>, in its version with
  \<open>pickLink\<close>, \<open>normalizeUrl\<close> and the fallback item. A JavaScript string is a
  sequence of UTF-16 code units; \<open>length\<close>, \<open>slice\<close>, \<open>indexOf\<close>, \<open>startsWith\<close>
  and the (non-unicode) regular expressions of the script all count and compare code
  units. Every literal of the source lies in the Basic Multilingual Plane, so each of
  its characters is one code unit; the Japanese literals are written here as their
  code units, with the source text named by its code points in the comment beside it.
\<close>

type_synonym jsstring = "16 word list"

definition js :: "string \<Rightarrow> jsstring" where
  \<comment> \<open>an ASCII literal of the source as code units\<close>
  "js s = map of_char s"

text \<open>
  The values the feed parser hands over for an element: absent (\<open>undefined\<close>), a
  string, or an object (an element with attributes), which may carry its text under
  the member \<open>_\<close>. \<open>truthy\<close> is JavaScript's ToBoolean (what \<open>!x\<close>, \<open>x || y\<close> and
  \<open>if (x)\<close> test) and \<open>js_String\<close> is \<open>String(x)\<close>, an object being an ordinary
  object, whose string is \<open>[object Object]\<close>.
\<close>

datatype jsval = Undefined | Str jsstring | Obj "jsstring option"

fun truthy :: "jsval \<Rightarrow> bool" where
  "truthy Undefined = False"
| "truthy (Str s) = (s \<noteq> [])"
| "truthy (Obj m) = True"

fun js_String :: "jsval \<Rightarrow> jsstring" where
  "js_String Undefined = js ''undefined''"
| "js_String (Str s) = s"
| "js_String (Obj m) = js ''[object Object]''"

definition js_or :: "jsval \<Rightarrow> jsval \<Rightarrow> jsval" where
  \<comment> \<open>\<open>a || b\<close>\<close>
  "js_or a b = (if truthy a then a else b)"

subsection \<open>White space, \<open>trim\<close> and \<open>replace(/\s+/g, " ")\<close>\<close>

definition is_space :: "16 word \<Rightarrow> bool" where
  \<comment> \<open>the class \<open>\s\<close>, which is also what \<open>trim\<close> strips: WhiteSpace and LineTerminator\<close>
  "is_space c \<longleftrightarrow>
     c = 0x20 \<or> c = 0x09 \<or> c = 0x0A \<or> c = 0x0B \<or> c = 0x0C \<or> c = 0x0D \<or> c = 0xA0
     \<or> c = 0x1680 \<or> (0x2000 \<le> c \<and> c \<le> 0x200A) \<or> c = 0x2028 \<or> c = 0x2029
     \<or> c = 0x202F \<or> c = 0x205F \<or> c = 0x3000 \<or> c = 0xFEFF"

function collapse_ws :: "jsstring \<Rightarrow> jsstring" where
  "collapse_ws [] = []"
| "collapse_ws (c # cs) =
     (if is_space c then 0x20 # collapse_ws (dropWhile is_space cs)
      else c # collapse_ws cs)"
  by pat_completeness auto
termination
  by (relation "measure length") (auto simp: le_imp_less_Suc length_dropWhile_le)

definition trim :: "jsstring \<Rightarrow> jsstring" where
  "trim s = rev (dropWhile is_space (rev (dropWhile is_space s)))"

subsection \<open>Case-insensitive matching of the literal patterns\<close>

text \<open>
  A regular expression with the flag \<open>i\<close> (and without \<open>u\<close>) compares the
  canonicalized code units: \<open>toUpperCase\<close> of the single code unit, except that a
  code unit of 128 or more never canonicalizes to one below 128. The words of the
  literal patterns of the source are ASCII letters, a full stop, and kana and
  ideographs, which have no case; against those, a code unit matches a pattern
  character exactly when they agree after mapping \<open>a\<close>..\<open>z\<close> to \<open>A\<close>..\<open>Z\<close>.
\<close>

definition canon :: "16 word \<Rightarrow> 16 word" where
  "canon c = (if 0x61 \<le> c \<and> c \<le> 0x7A then c - 0x20 else c)"

fun ci_prefix :: "jsstring \<Rightarrow> jsstring \<Rightarrow> bool" where
  "ci_prefix [] s = True"
| "ci_prefix (p # ps) [] = False"
| "ci_prefix (p # ps) (c # cs) = (canon p = canon c \<and> ci_prefix ps cs)"

fun ci_contains :: "jsstring \<Rightarrow> jsstring \<Rightarrow> bool" where
  \<comment> \<open>\<open>/w/i.test(s)\<close> for a literal word \<open>w\<close>\<close>
  "ci_contains w [] = ci_prefix w []"
| "ci_contains w (c # cs) = (ci_prefix w (c # cs) \<or> ci_contains w cs)"

definition test_any :: "jsstring list \<Rightarrow> jsstring \<Rightarrow> bool" where
  \<comment> \<open>\<open>/w1|w2|...|wn/i.test(s)\<close>\<close>
  "test_any ws s = list_ex (\<lambda>w. ci_contains w s) ws"

section \<open>Title normalizer\<close>

definition bracket_open :: "16 word" where
  \<comment> \<open>U+3010, left black lenticular bracket\<close>
  "bracket_open = 0x3010"

definition bracket_close :: "16 word" where
  \<comment> \<open>U+3011, right black lenticular bracket\<close>
  "bracket_close = 0x3011"

definition marker_words :: "jsstring list" where
  \<comment> \<open>the alternatives of \<open>(PR|U+5E83 U+544A|U+304A U+77E5 U+3089 U+305B|News)\<close>, in order\<close>
  "marker_words = [js ''PR'', [0x5E83, 0x544A], [0x304A, 0x77E5, 0x3089, 0x305B], js ''News'']"

fun match_word :: "jsstring list \<Rightarrow> jsstring \<Rightarrow> jsstring option" where
  \<comment> \<open>the first alternative that matches at the start; the rest of the string after it\<close>
  "match_word [] s = None"
| "match_word (w # ws) s =
     (if ci_prefix w s then Some (drop (length w) s) else match_word ws s)"

definition opt_close :: "jsstring \<Rightarrow> jsstring" where
  \<comment> \<open>the greedy optional closing bracket\<close>
  "opt_close s = (case s of [] \<Rightarrow> [] | c # cs \<Rightarrow> if c = bracket_close then cs else c # cs)"

definition match_marker :: "jsstring \<Rightarrow> jsstring option" where
  \<comment> \<open>one match of the marker pattern at the start of \<open>s\<close>: the greedy optional
      opening bracket is tried first, then the match without it\<close>
  "match_marker s =
     (case (case s of
              [] \<Rightarrow> None
            | c # cs \<Rightarrow> if c = bracket_open then match_word marker_words cs else None) of
        Some r \<Rightarrow> Some (opt_close r)
      | None \<Rightarrow> map_option opt_close (match_word marker_words s))"

lemma match_word_length:
  "match_word ws s = Some r \<Longrightarrow> [] \<notin> set ws \<Longrightarrow> length r < length s"
proof (induction ws)
  case Nil
  then show ?case by simp
next
  case (Cons w ws)
  show ?case
  proof (cases "ci_prefix w s")
    case True
    with Cons.prems have r: "r = drop (length w) s" and "w \<noteq> []" by auto
    with True have "s \<noteq> []" by (cases w; cases s) auto
    with r \<open>w \<noteq> []\<close> show ?thesis by simp
  next
    case False
    with Cons show ?thesis by simp
  qed
qed

lemma opt_close_length: "length (opt_close s) \<le> length s"
  by (simp add: opt_close_def split: list.splits)

lemma marker_words_nonempty: "[] \<notin> set marker_words"
  by (simp add: marker_words_def js_def)

lemma match_marker_length:
  assumes "match_marker s = Some r"
  shows "length r < length s"
proof -
  from assms consider
      (opened) cs r' where "s = bracket_open # cs" "match_word marker_words cs = Some r'"
        "r = opt_close r'"
    | (plain) r' where "match_word marker_words s = Some r'" "r = opt_close r'"
    by (auto simp: match_marker_def split: list.splits if_splits option.splits)
  then show ?thesis
  proof cases
    case opened
    from match_word_length [OF opened(2) marker_words_nonempty] opt_close_length [of r']
    show ?thesis using opened by simp
  next
    case plain
    from match_word_length [OF plain(1) marker_words_nonempty] opt_close_length [of r']
    show ?thesis using plain by simp
  qed
qed

function strip_markers :: "jsstring \<Rightarrow> jsstring" where
  \<comment> \<open>\<open>t.replace(/.../gi, "")\<close>: matches are taken leftmost, one after the other\<close>
  "strip_markers [] = []"
| "strip_markers (c # cs) =
     (case match_marker (c # cs) of
        Some r \<Rightarrow> strip_markers r
      | None \<Rightarrow> c # strip_markers cs)"
  by pat_completeness auto
termination
  by (relation "measure length") (auto dest: match_marker_length)

definition tag_limited :: jsstring where
  \<comment> \<open>the bracketed tag U+3010 U+9650 U+5B9A U+3011 ("limited")\<close>
  "tag_limited = [0x3010, 0x9650, 0x5B9A, 0x3011]"

definition tag_new :: jsstring where
  \<comment> \<open>the bracketed tag U+3010 U+65B0 U+4F5C U+3011 ("new product")\<close>
  "tag_new = [0x3010, 0x65B0, 0x4F5C, 0x3011]"

definition tag_release :: jsstring where
  \<comment> \<open>the bracketed tag U+3010 U+767A U+58F2 U+3011 ("on sale")\<close>
  "tag_release = [0x3010, 0x767A, 0x58F2, 0x3011]"

definition limited_words :: "jsstring list" where
  \<comment> \<open>\<open>/U+9650 U+5B9A|U+5148 U+884C|U+6570 U+91CF/i\<close>\<close>
  "limited_words = [[0x9650, 0x5B9A], [0x5148, 0x884C], [0x6570, 0x91CF]]"

definition new_words :: "jsstring list" where
  \<comment> \<open>\<open>/U+65B0 U+4F5C|U+65B0 U+8272|U+65B0 U+5546 U+54C1/i\<close>\<close>
  "new_words = [[0x65B0, 0x4F5C], [0x65B0, 0x8272], [0x65B0, 0x5546, 0x54C1]]"

definition release_words :: "jsstring list" where
  \<comment> \<open>\<open>/U+767A U+58F2|U+89E3 U+7981|U+516C U+958B/i\<close>\<close>
  "release_words = [[0x767A, 0x58F2], [0x89E3, 0x7981], [0x516C, 0x958B]]"

definition latest_info :: jsstring where
  \<comment> \<open>the suffix U+306E U+6700 U+65B0 U+60C5 U+5831 ("'s latest information")\<close>
  "latest_info = [0x306E, 0x6700, 0x65B0, 0x60C5, 0x5831]"

definition fullwidth_colon :: "16 word" where
  \<comment> \<open>U+FF1A\<close>
  "fullwidth_colon = 0xFF1A"

definition add_tag :: "jsstring list \<Rightarrow> jsstring \<Rightarrow> jsstring \<Rightarrow> jsstring" where
  \<comment> \<open>\<open>if (/words/i.test(t) && !t.startsWith(tag)) t = tag + t\<close>\<close>
  "add_tag ws tag t = (if test_any ws t \<and> \<not> prefix tag t then tag @ t else t)"

definition tagged_title :: "jsval \<Rightarrow> jsstring" where
  \<comment> \<open>the value of \<open>t\<close> after the three tag statements, before the brand prefix\<close>
  "tagged_title raw =
     (let t = trim (collapse_ws (js_String raw));
          t = trim (strip_markers t);
          t = add_tag limited_words tag_limited t;
          t = add_tag new_words tag_new t;
          t = add_tag release_words tag_release t
      in t)"

definition normalizeTitle :: "jsstring \<Rightarrow> jsval \<Rightarrow> jsstring" where
  "normalizeTitle brand raw =
     (if \<not> truthy raw then brand @ latest_info
      else
        let t = tagged_title raw
        in if \<not> prefix brand t then brand @ fullwidth_colon # t else t)"

section \<open>Summarizer\<close>

definition generic_summary :: jsstring where
  \<comment> \<open>the fixed sentence U+516C U+5F0F U+60C5 U+5831 U+306E U+8981 U+70B9 U+3092 U+307E U+3068
      U+3081 U+307E U+3057 U+305F U+3002 ("the key points of the official information")\<close>
  "generic_summary = [0x516C, 0x5F0F, 0x60C5, 0x5831, 0x306E, 0x8981, 0x70B9, 0x3092,
                      0x307E, 0x3068, 0x3081, 0x307E, 0x3057, 0x305F, 0x3002]"

definition full_stop :: "16 word" where
  \<comment> \<open>U+3002, ideographic full stop\<close>
  "full_stop = 0x3002"

fun indexOf :: "jsstring \<Rightarrow> 16 word \<Rightarrow> int" where
  \<comment> \<open>\<open>s.indexOf(c)\<close> for a one-unit string \<open>c\<close>: the first index, or -1\<close>
  "indexOf [] c = -1"
| "indexOf (x # xs) c =
     (if x = c then 0 else (let i = indexOf xs c in if i < 0 then -1 else i + 1))"

definition summarizeJP :: "jsval \<Rightarrow> jsstring" where
  "summarizeJP txt =
     (if \<not> truthy txt then generic_summary
      else
        let s = trim (collapse_ws (js_String txt));
            i = indexOf s full_stop
        in if i > 20 then take (nat (i + 1)) s else take 120 s)"

section \<open>Link extraction\<close>

text \<open>
  The link-bearing member of a raw entry: absent, a plain string, one link object, or
  a sequence of link objects. A link object may carry a relation \<open>rel\<close> and an
  \<open>href\<close>; a member that is absent reads as \<open>undefined\<close>. A sequence element that is
  a bare string has neither member and behaves as the link object without both.
\<close>

record linkobj =
  rel :: "jsstring option"
  href :: "jsstring option"

datatype linkfield = LinkAbsent | LinkStr jsstring | LinkObj linkobj | LinkArr "linkobj list"

record rawitem =
  it_title :: jsval
  it_link :: linkfield
  it_enclosure_url :: "jsstring option"  \<comment> \<open>\<open>it.enclosure?.url\<close>\<close>
  it_description :: jsval
  it_summary :: jsval
  it_content :: jsval
  it_pubDate :: jsval
  it_published :: jsval
  it_updated :: jsval

definition href_of :: "linkobj \<Rightarrow> jsstring" where
  \<comment> \<open>\<open>l.href\<close> as far as its truth value and its use as a result go: an absent
      \<open>href\<close> and the empty one are both falsy\<close>
  "href_of l = (case href l of None \<Rightarrow> [] | Some h \<Rightarrow> h)"

definition is_alternate :: "linkobj \<Rightarrow> bool" where
  \<comment> \<open>\<open>l.rel === "alternate" && l.href\<close>\<close>
  "is_alternate l \<longleftrightarrow> rel l = Some (js ''alternate'') \<and> href_of l \<noteq> []"

definition enclosure_or_empty :: "'a rawitem_scheme \<Rightarrow> jsstring" where
  \<comment> \<open>\<open>if (it.enclosure?.url) return it.enclosure.url; return "";\<close>\<close>
  "enclosure_or_empty it = (case it_enclosure_url it of None \<Rightarrow> [] | Some u \<Rightarrow> u)"

definition string_or_enclosure :: "'a rawitem_scheme \<Rightarrow> jsstring" where
  \<comment> \<open>the last three statements of \<open>pickLink\<close>\<close>
  "string_or_enclosure it =
     (case it_link it of
        LinkStr s \<Rightarrow> if s \<noteq> [] then s else enclosure_or_empty it
      | _ \<Rightarrow> enclosure_or_empty it)"

definition pickLink :: "'a rawitem_scheme \<Rightarrow> jsstring" where
  "pickLink it =
     (case it_link it of
        LinkArr ls \<Rightarrow>
          (case find is_alternate ls of
             Some alt \<Rightarrow> href_of alt
           | None \<Rightarrow>
               (case find (\<lambda>l. href_of l \<noteq> []) ls of
                  Some l \<Rightarrow> href_of l
                | None \<Rightarrow> string_or_enclosure it))
      | LinkObj l \<Rightarrow> if href_of l \<noteq> [] then href_of l else string_or_enclosure it
      | _ \<Rightarrow> string_or_enclosure it)"

section \<open>Canonical URLs and deduplication\<close>

text \<open>
  The class \<open>URL\<close> belongs to the runtime, not to the repository: its parser,
  its setters and its serializer are parameters of the model. \<open>url_new\<close> is
  \<open>new URL(u)\<close>, with \<open>None\<close> when the constructor throws; \<open>url_clear_hash\<close> is the
  assignment \<open>url.hash = ""\<close>; \<open>url_pathname\<close> and \<open>url_set_pathname\<close> read and
  assign \<open>url.pathname\<close>; \<open>url_toString\<close> is \<open>url.toString()\<close>.
\<close>

record 'u url_api =
  url_new :: "jsstring \<Rightarrow> 'u option"
  url_clear_hash :: "'u \<Rightarrow> 'u"
  url_pathname :: "'u \<Rightarrow> jsstring"
  url_set_pathname :: "'u \<Rightarrow> jsstring \<Rightarrow> 'u"
  url_toString :: "'u \<Rightarrow> jsstring"

definition slash :: "16 word" where
  "slash = 0x2F"

definition strip_trailing_slashes :: "jsstring \<Rightarrow> jsstring" where
  \<comment> \<open>\<open>p.replace(/\/+$/, "")\<close>\<close>
  "strip_trailing_slashes p = rev (dropWhile (\<lambda>c. c = slash) (rev p))"

definition canonical_object :: "'u url_api \<Rightarrow> 'u \<Rightarrow> 'u" where
  \<comment> \<open>the statements of the \<open>try\<close> block between the constructor and \<open>toString\<close>\<close>
  "canonical_object api x =
     (let x = url_clear_hash api x;
          p = url_pathname api x
      in if p \<noteq> [slash] \<and> suffix [slash] p
         then url_set_pathname api x (strip_trailing_slashes p)
         else x)"

definition normalizeUrl :: "'u url_api \<Rightarrow> jsstring \<Rightarrow> jsstring" where
  \<comment> \<open>the \<open>catch\<close> branch returns \<open>u || ""\<close>, which for a string \<open>u\<close> is \<open>u\<close>\<close>
  "normalizeUrl api u =
     (case url_new api u of
        None \<Rightarrow> u
      | Some x \<Rightarrow> url_toString api (canonical_object api x))"

record item =
  item_id :: jsstring
  brand :: jsstring
  title :: jsstring
  summary :: jsstring
  publishedAt :: jsstring
  category :: jsstring
  sourceType :: jsstring
  url :: jsstring
  thumbnailURL :: "jsstring option"

fun dedupe_from :: "'u url_api \<Rightarrow> jsstring set \<Rightarrow> item list \<Rightarrow> item list" where
  \<comment> \<open>the \<open>filter\<close> callback of \<open>dedupeByUrl\<close>, with the set \<open>seen\<close> passed along\<close>
  "dedupe_from api seen [] = []"
| "dedupe_from api seen (x # xs) =
     (let k = normalizeUrl api (url x)
      in if k = [] \<or> k \<in> seen then dedupe_from api seen xs
         else x\<lparr>url := k\<rparr> # dedupe_from api (insert k seen) xs)"

definition dedupeByUrl :: "'u url_api \<Rightarrow> item list \<Rightarrow> item list" where
  "dedupeByUrl api arr = dedupe_from api {} arr"

section \<open>Dates, the clock and the outside world\<close>

text \<open>
  Times are ECMAScript time values: milliseconds since the epoch, as integers.
  The class \<open>Date\<close> belongs to the runtime: \<open>date_parse s\<close> is
  \<open>new Date(s).getTime()\<close> for a string \<open>s\<close>, with \<open>None\<close> for \<open>NaN\<close> (an invalid
  date), and \<open>toISOString t\<close> is the ISO string of the valid time value \<open>t\<close>.
\<close>

record date_api =
  date_parse :: "jsstring \<Rightarrow> int option"
  toISOString :: "int \<Rightarrow> jsstring"

text \<open>
  Every evaluation of \<open>new Date()\<close>, \<open>Date.now()\<close> and \<open>safeUUID()\<close> reads the
  outside world at its own instant. The readings are inputs of the model, named by the
  place of the call: inside \<open>fetchRSS\<close> for entry \<open>j\<close> of the \<open>n\<close>-th fetched feed, in
  the driver's loop for that entry, at the start of the post-processing, and in the
  fallback item.
\<close>

datatype site = InFetch nat nat | InNormalize nat nat | PostProcess | Fallback

datatype error = FetchError jsstring | ParseError jsstring | SyntaxError jsstring
  | URIError jsstring

text \<open>
  \<open>fetch_items n u\<close> is the outcome of the \<open>n\<close>-th call of \<open>fetchRSS\<close> (counted from
  0 over the whole run) up to its array \<open>arr\<close>: \<open>httpGet\<close> with its retries, the XML
  parser and the choice of the item sequence; an error is the exception that call
  throws. \<open>regexp_test k s\<close> is \<open>new RegExp(k, "i").test(s)\<close>, which throws for a
  pattern that is no regular expression; \<open>encodeURIComponent\<close> throws for a string
  with a lone surrogate.
\<close>

record world =
  fetch_items :: "nat \<Rightarrow> jsstring \<Rightarrow> error + rawitem list"
  clock :: "site \<Rightarrow> int"
  safeUUID :: "site \<Rightarrow> jsstring"
  regexp_test :: "jsstring \<Rightarrow> jsstring \<Rightarrow> error + bool"
  encodeURIComponent :: "jsstring \<Rightarrow> error + jsstring"

definition nowISO :: "date_api \<Rightarrow> world \<Rightarrow> site \<Rightarrow> jsstring" where
  "nowISO D W s = toISOString D (clock W s)"

definition new_Date :: "date_api \<Rightarrow> jsval \<Rightarrow> int option" where
  \<comment> \<open>\<open>new Date(d).getTime()\<close>: an object is first converted to its string\<close>
  "new_Date D d = (case d of Undefined \<Rightarrow> None | _ \<Rightarrow> date_parse D (js_String d))"

definition toISO :: "date_api \<Rightarrow> world \<Rightarrow> site \<Rightarrow> jsval \<Rightarrow> jsstring" where
  "toISO D W s d =
     (case new_Date D d of None \<Rightarrow> nowISO D W s | Some t \<Rightarrow> toISOString D t)"

section \<open>Category classifier\<close>

definition cat_lip :: jsstring where
  \<comment> \<open>U+30EA U+30C3 U+30D7\<close>
  "cat_lip = [0x30EA, 0x30C3, 0x30D7]"

definition cat_cheek :: jsstring where
  \<comment> \<open>U+30C1 U+30FC U+30AF\<close>
  "cat_cheek = [0x30C1, 0x30FC, 0x30AF]"

definition cat_eye :: jsstring where
  \<comment> \<open>U+30A2 U+30A4 U+30E1 U+30A4 U+30AF\<close>
  "cat_eye = [0x30A2, 0x30A4, 0x30E1, 0x30A4, 0x30AF]"

definition cat_skincare :: jsstring where
  \<comment> \<open>U+30B9 U+30AD U+30F3 U+30B1 U+30A2\<close>
  "cat_skincare = [0x30B9, 0x30AD, 0x30F3, 0x30B1, 0x30A2]"

definition cat_base :: jsstring where
  \<comment> \<open>U+30D9 U+30FC U+30B9 U+30E1 U+30A4 U+30AF\<close>
  "cat_base = [0x30D9, 0x30FC, 0x30B9, 0x30E1, 0x30A4, 0x30AF]"

definition cat_nail :: jsstring where
  \<comment> \<open>U+30CD U+30A4 U+30EB\<close>
  "cat_nail = [0x30CD, 0x30A4, 0x30EB]"

definition cat_hair :: jsstring where
  \<comment> \<open>U+30D8 U+30A2 U+30B1 U+30A2\<close>
  "cat_hair = [0x30D8, 0x30A2, 0x30B1, 0x30A2]"

definition catDict :: "jsstring list" where
  "catDict = [cat_lip, cat_cheek, cat_eye, cat_skincare, cat_base, cat_nail, cat_hair]"

definition set_order :: "jsstring list \<Rightarrow> jsstring list" where
  \<comment> \<open>the iteration order of \<open>new Set(xs)\<close>: each value once, at its first place\<close>
  "set_order xs = rev (remdups (rev xs))"

fun first_match :: "world \<Rightarrow> jsstring \<Rightarrow> jsstring list \<Rightarrow> error + jsstring option" where
  \<comment> \<open>\<open>for (const k of all) if (new RegExp(k, "i").test(s)) return k;\<close>\<close>
  "first_match W s [] = Inr None"
| "first_match W s (k # ks) =
     (case regexp_test W k s of
        Inl e \<Rightarrow> Inl e
      | Inr matched \<Rightarrow> if matched then Inr (Some k) else first_match W s ks)"

definition guessCategory :: "world \<Rightarrow> jsstring list \<Rightarrow> jsstring \<Rightarrow> error + jsstring" where
  \<comment> \<open>\<open>text\<close> is a string at the one call, so \<open>String(text || "")\<close> is \<open>text\<close>\<close>
  "guessCategory W brandHints text =
     (case first_match W text (set_order (brandHints @ catDict)) of
        Inl e \<Rightarrow> Inl e
      | Inr (Some k) \<Rightarrow> Inr k
      | Inr None \<Rightarrow>
          Inr (if test_any [js ''lip'', cat_lip] text then cat_lip
               else if test_any [js ''cheek'', cat_cheek] text then cat_cheek
               else if test_any [js ''skin'', cat_skincare] text then cat_skincare
               else if test_any [js ''eye'', [0x30A2, 0x30A4, 0x30B7, 0x30E3, 0x30C9, 0x30A6],
                                 [0x30A2, 0x30A4, 0x30E9, 0x30A4, 0x30CA, 0x30FC],
                                 [0x30DE, 0x30B9, 0x30AB, 0x30E9]] text then cat_eye
               else cat_skincare))"

section \<open>Feed parser: from the raw items to entries\<close>

record entry =
  e_title :: jsval
  e_link :: jsstring
  e_desc :: jsval
  e_pubDate :: jsval

definition text_member :: "jsval \<Rightarrow> jsval" where
  \<comment> \<open>\<open>v?._\<close>\<close>
  "text_member v = (case v of Obj (Some s) \<Rightarrow> Str s | _ \<Rightarrow> Undefined)"

definition to_entry :: "date_api \<Rightarrow> world \<Rightarrow> nat \<Rightarrow> nat \<Rightarrow> rawitem \<Rightarrow> entry" where
  \<comment> \<open>the callback of \<open>arr.map\<close> in \<open>fetchRSS\<close>\<close>
  "to_entry D W n j it =
     \<lparr> e_title = js_or (text_member (it_title it)) (js_or (it_title it) (Str [])),
       e_link = pickLink it,
       e_desc = js_or (it_description it)
                  (js_or (it_summary it) (js_or (text_member (it_content it)) (Str []))),
       e_pubDate = js_or (it_pubDate it)
                     (js_or (it_published it)
                        (js_or (it_updated it) (Str (nowISO D W (InFetch n j))))) \<rparr>"

definition fetchRSS :: "date_api \<Rightarrow> world \<Rightarrow> nat \<Rightarrow> jsstring \<Rightarrow> error + entry list" where
  "fetchRSS D W n u =
     (case fetch_items W n u of
        Inl e \<Rightarrow> Inl e
      | Inr arr \<Rightarrow> Inr (map (\<lambda>(j, it). to_entry D W n j it) (enumerate 0 arr)))"

section \<open>Aggregation driver\<close>

record source =
  b_brand :: jsstring
  b_categoryHints :: "jsstring list option"
  b_rss :: "jsstring list option"
  b_youtube :: "jsstring list option"
  b_useGoogleNewsRSS :: "bool option"
  b_googleQuery :: "jsstring option"

definition or_empty :: "'a list option \<Rightarrow> 'a list" where
  \<comment> \<open>\<open>xs || []\<close> for a member that is an array when present\<close>
  "or_empty xs = (case xs of None \<Rightarrow> [] | Some ys \<Rightarrow> ys)"

definition ytRSS :: "jsstring \<Rightarrow> jsstring" where
  "ytRSS chId = js ''https://www.youtube.com/feeds/videos.xml?channel_id='' @ chId"

definition default_query_suffix :: jsstring where
  \<comment> \<open>the literal part of the default query: a space, U+65B0 U+4F5C, \<open> OR \<close>,
      U+65B0 U+5546 U+54C1, \<open> OR \<close>, U+30B3 U+30B9 U+30E1\<close>
  "default_query_suffix =
     [0x20, 0x65B0, 0x4F5C] @ js '' OR '' @ [0x65B0, 0x5546, 0x54C1] @ js '' OR ''
     @ [0x30B3, 0x30B9, 0x30E1]"

definition googleNewsRSS :: "world \<Rightarrow> jsstring \<Rightarrow> error + jsstring" where
  "googleNewsRSS W q =
     (case encodeURIComponent W q of
        Inl e \<Rightarrow> Inl e
      | Inr enc \<Rightarrow>
          Inr (js ''https://news.google.com/rss/search?q='' @ enc
               @ js ''&hl=ja&gl=JP&ceid=JP:ja''))"

definition feedURLs :: "world \<Rightarrow> source \<Rightarrow> error + jsstring list" where
  \<comment> \<open>the list \<open>feedURLs\<close> of one source, as the loop over it finds it\<close>
  "feedURLs W b =
     (let fs = or_empty (b_rss b) @ map ytRSS (or_empty (b_youtube b))
      in if (case b_useGoogleNewsRSS b of None \<Rightarrow> True | Some v \<Rightarrow> v) \<and> length fs = 0
         then
           (let q = (case b_googleQuery b of
                       None \<Rightarrow> b_brand b @ default_query_suffix
                     | Some g \<Rightarrow> if g \<noteq> [] then g else b_brand b @ default_query_suffix)
            in case googleNewsRSS W q of
                 Inl e \<Rightarrow> Inl e
               | Inr f \<Rightarrow> Inr (fs @ [f]))
         else Inr fs)"

definition normalize_entry ::
    "date_api \<Rightarrow> world \<Rightarrow> source \<Rightarrow> nat \<Rightarrow> nat \<Rightarrow> entry \<Rightarrow> error + item" where
  \<comment> \<open>the body of the loop over the entries, after the test of the link; the only
      call in it that can throw is the construction of a regular expression from a
      category hint\<close>
  "normalize_entry D W b n j e =
     (let u = e_link e;
          t = normalizeTitle (b_brand b) (e_title e)
      in case guessCategory W (or_empty (b_categoryHints b))
                (js_String (e_title e) @ 0x20 # js_String (e_desc e)) of
           Inl err \<Rightarrow> Inl err
         | Inr c \<Rightarrow>
             Inr \<lparr> item_id = safeUUID W (InNormalize n j),
                   brand = b_brand b,
                   title = t,
                   summary = summarizeJP (js_or (e_desc e) (e_title e)),
                   publishedAt =
                     toISO D W (InNormalize n j)
                       (js_or (e_pubDate e) (Str (nowISO D W (InNormalize n j)))),
                   category = c,
                   sourceType =
                     (if test_any [js ''youtube'', js ''youtu.be''] u then js ''youtube''
                      else js ''website''),
                   url = u,
                   thumbnailURL = None \<rparr>)"

fun push_entries ::
    "date_api \<Rightarrow> world \<Rightarrow> source \<Rightarrow> nat \<Rightarrow> nat \<Rightarrow> entry list \<Rightarrow> item list \<times> error option" where
  \<comment> \<open>the loop over the entries of one feed, from entry \<open>j\<close> on: the items it pushes,
      in order, and the exception that ended it, if one did\<close>
  "push_entries D W b n j [] = ([], None)"
| "push_entries D W b n j (e # es) =
     (if e_link e = [] then push_entries D W b n (Suc j) es
      else case normalize_entry D W b n j e of
             Inl err \<Rightarrow> ([], Some err)
           | Inr x \<Rightarrow>
               (case push_entries D W b n (Suc j) es of (xs, r) \<Rightarrow> (x # xs, r)))"

record run_state =
  all :: "item list"
  totalFeeds :: nat
  okFeeds :: nat
  feed_errors :: "(jsstring \<times> jsstring \<times> error) list"

definition try_feed :: "date_api \<Rightarrow> world \<Rightarrow> source \<Rightarrow> run_state \<Rightarrow> jsstring \<Rightarrow> run_state" where
  \<comment> \<open>one round of the loop over the feeds of a source: the \<open>try\<close> block and its
      \<open>catch\<close>, which reports the brand, the feed and the error and goes on\<close>
  "try_feed D W b st f =
     (let n = totalFeeds st;
          st = st\<lparr>totalFeeds := n + 1\<rparr>
      in case fetchRSS D W n f of
           Inl err \<Rightarrow> st\<lparr>feed_errors := feed_errors st @ [(b_brand b, f, err)]\<rparr>
         | Inr entries \<Rightarrow>
             (let st = st\<lparr>okFeeds := okFeeds st + 1\<rparr>
              in case push_entries D W b n 0 entries of
                   (xs, None) \<Rightarrow> st\<lparr>all := all st @ xs\<rparr>
                 | (xs, Some err) \<Rightarrow>
                     st\<lparr>all := all st @ xs,
                        feed_errors := feed_errors st @ [(b_brand b, f, err)]\<rparr>))"

fun collect :: "date_api \<Rightarrow> world \<Rightarrow> source list \<Rightarrow> run_state \<Rightarrow> error + run_state" where
  \<comment> \<open>the loop over the sources; an exception outside the \<open>try\<close> block ends the run\<close>
  "collect D W [] st = Inr st"
| "collect D W (b # bs) st =
     (case feedURLs W b of
        Inl e \<Rightarrow> Inl e
      | Inr fs \<Rightarrow> collect D W bs (foldl (try_feed D W b) st fs))"

definition ninety_days :: int where
  "ninety_days = 90 * 24 * 60 * 60 * 1000"

definition one_day :: int where
  "one_day = 24 * 60 * 60 * 1000"

definition in_window :: "date_api \<Rightarrow> int \<Rightarrow> item \<Rightarrow> bool" where
  \<comment> \<open>the callback of the time filter; \<open>now\<close> is the reading of \<open>Date.now()\<close>\<close>
  "in_window D now x =
     (case date_parse D (publishedAt x) of
        None \<Rightarrow> False
      | Some t \<Rightarrow> now - ninety_days \<le> t \<and> t \<le> now + one_day)"

definition time_of :: "date_api \<Rightarrow> item \<Rightarrow> int" where
  \<comment> \<open>the sort key. The sort runs after the time filter, on items whose dates all
      parse; an invalid date would make the comparator \<open>NaN\<close> and the order a matter of
      the engine, which this model does not describe\<close>
  "time_of D x = (case date_parse D (publishedAt x) of None \<Rightarrow> 0 | Some t \<Rightarrow> t)"

definition sort_newest_first :: "date_api \<Rightarrow> item list \<Rightarrow> item list" where
  \<comment> \<open>\<open>Array.prototype.sort\<close> is stable; the comparator orders by descending time\<close>
  "sort_newest_first D xs = sort_key (\<lambda>x. - time_of D x) xs"

definition fallback_brand :: jsstring where
  \<comment> \<open>U+30C6 U+30B9 U+30C8 U+FF08 \<open>feed\<close> U+672A U+53D6 U+5F97 U+FF09\<close>
  "fallback_brand = [0x30C6, 0x30B9, 0x30C8, 0xFF08] @ js ''feed'' @ [0x672A, 0x53D6, 0x5F97, 0xFF09]"

definition fallback_title :: jsstring where
  "fallback_title =
     [0x3010, 0x65B0, 0x4F5C, 0x3011, 0x30D5, 0x30A9, 0x30FC, 0x30EB, 0x30D0, 0x30C3, 0x30AF,
      0x8868, 0x793A, 0x20, 0x2014, 0x20] @ js ''brands.json / Actions''
     @ [0x30ED, 0x30B0, 0x3092, 0x78BA, 0x8A8D, 0x3057, 0x3066, 0x304F, 0x3060, 0x3055, 0x3044]"

definition fallback_summary :: jsstring where
  "fallback_summary =
     js ''RSS'' @ [0x306E, 0x53D6, 0x5F97, 0x306B, 0x5931, 0x6557, 0x3057, 0x305F, 0x53EF, 0x80FD,
                   0x6027, 0x304C, 0x3042, 0x308A, 0x307E, 0x3059, 0x3002]
     @ js ''URL'' @ [0x3084, 0x30AF, 0x30A8, 0x30EA, 0x3001, 0x6A29, 0x9650, 0x3092, 0x78BA,
                     0x8A8D, 0x3057, 0x307E, 0x3057, 0x3087, 0x3046, 0x3002]"

definition fallback_item :: "date_api \<Rightarrow> world \<Rightarrow> item" where
  "fallback_item D W =
     \<lparr> item_id = safeUUID W Fallback,
       brand = fallback_brand,
       title = fallback_title,
       summary = fallback_summary,
       publishedAt = nowISO D W Fallback,
       category = cat_skincare,
       sourceType = js ''website'',
       url = js ''https://example.com/'',
       thumbnailURL = None \<rparr>"

definition post_process :: "'u url_api \<Rightarrow> date_api \<Rightarrow> world \<Rightarrow> item list \<Rightarrow> item list" where
  \<comment> \<open>what \<open>main\<close> does to the collection after the loops, up to the written array\<close>
  "post_process api D W xs =
     (let now = clock W PostProcess;
          xs = filter (in_window D now) xs;
          xs = sort_newest_first D (dedupeByUrl api xs)
      in if length xs = 0 then [fallback_item D W] else xs)"

record run_result =
  written :: "item list"
  ok :: nat
  total :: nat
  reported :: "(jsstring \<times> jsstring \<times> error) list"

definition initial_state :: run_state where
  "initial_state = \<lparr> all = [], totalFeeds = 0, okFeeds = 0, feed_errors = [] \<rparr>"

definition main :: "'u url_api \<Rightarrow> date_api \<Rightarrow> world \<Rightarrow> source list \<Rightarrow> error + run_result" where
  \<comment> \<open>the run on a configuration that has been read: the written array, the counts
      of the closing line and the reported feed errors, or the exception that ends it\<close>
  "main api D W brands =
     (case collect D W brands initial_state of
        Inl e \<Rightarrow> Inl e
      | Inr st \<Rightarrow>
          Inr \<lparr> written = post_process api D W (all st),
                ok = okFeeds st,
                total = totalFeeds st,
                reported = feed_errors st \<rparr>)"

section \<open>What the runtime's URL class is taken to guarantee\<close>

text \<open>
  Four properties of the URL standard's parser, setters and serializer, as far as
  \<open>normalizeUrl\<close> meets them: parsing the serialization of a URL object gives that
  object back; clearing the fragment twice is clearing it once; assigning the
  pathname and clearing the fragment act on different components; and a URL whose
  pathname is assigned that pathname without its trailing slashes is unchanged (an
  opaque path ignores the assignment), or then has the root path, or a pathname
  without a trailing slash.
\<close>

definition url_laws :: "'u url_api \<Rightarrow> bool" where
  "url_laws api \<longleftrightarrow>
     (\<forall>y. url_new api (url_toString api y) = Some y)
   \<and> (\<forall>y. url_clear_hash api (url_clear_hash api y) = url_clear_hash api y)
   \<and> (\<forall>y q. url_clear_hash api (url_set_pathname api y q)
             = url_set_pathname api (url_clear_hash api y) q)
   \<and> (\<forall>y. url_set_pathname api y (strip_trailing_slashes (url_pathname api y)) = y
          \<or> url_pathname api (url_set_pathname api y (strip_trailing_slashes (url_pathname api y)))
              = [slash]
          \<or> \<not> suffix [slash]
               (url_pathname api (url_set_pathname api y (strip_trailing_slashes (url_pathname api y)))))"

section \<open>The schedule of a run\<close>

text \<open>
  Two notions for stating what a run collects: the items that the \<open>n\<close>-th fetched
  feed adds to the collection (none when the fetch or the parse fails, those pushed
  before the exception when the normalization of an entry throws), and the feeds of a
  run in the order of the two loops, each with its source and its number.
\<close>

definition feed_items :: "date_api \<Rightarrow> world \<Rightarrow> source \<Rightarrow> nat \<Rightarrow> jsstring \<Rightarrow> item list" where
  "feed_items D W b n f =
     (case fetchRSS D W n f of Inl e \<Rightarrow> [] | Inr es \<Rightarrow> fst (push_entries D W b n 0 es))"

fun endpoints :: "world \<Rightarrow> nat \<Rightarrow> source list \<Rightarrow> (source \<times> nat \<times> jsstring) list" where
  "endpoints W n [] = []"
| "endpoints W n (b # bs) =
     (case feedURLs W b of
        Inl e \<Rightarrow> []
      | Inr fs \<Rightarrow> map (\<lambda>(i, f). (b, i, f)) (enumerate n fs) @ endpoints W (n + length fs) bs)"

definition feed_report ::
    "date_api \<Rightarrow> world \<Rightarrow> source \<Rightarrow> nat \<Rightarrow> jsstring \<Rightarrow> (jsstring \<times> jsstring \<times> error) list" where
  "feed_report D W b n f =
     (case fetchRSS D W n f of
        Inl e \<Rightarrow> [(b_brand b, f, e)]
      | Inr es \<Rightarrow>
          (case snd (push_entries D W b n 0 es) of
             None \<Rightarrow> []
           | Some e \<Rightarrow> [(b_brand b, f, e)]))"

section \<open>An example platform\<close>

text \<open>
  A small platform on which the theorems below are exercised: the URL class on the
  four URLs of one page, the dates of three instants, and a world in which the first
  feed of a source is down and the second carries five entries.
\<close>

definition title_example :: jsstring where
  \<comment> \<open>U+65B0 U+4F5C U+30B3 U+30B9 U+30E1 U+767B U+5834 ("new cosmetics arrive")\<close>
  "title_example = [0x65B0, 0x4F5C, 0x30B3, 0x30B9, 0x30E1, 0x767B, 0x5834]"

datatype demo_url = PageSlashTop | PageSlash | Page | PageTop

fun demo_href :: "demo_url \<Rightarrow> jsstring" where
  "demo_href PageSlashTop = js ''https://a.example/x/#top''"
| "demo_href PageSlash = js ''https://a.example/x/''"
| "demo_href Page = js ''https://a.example/x''"
| "demo_href PageTop = js ''https://a.example/x#top''"

definition demo_urls :: "demo_url url_api" where
  \<comment> \<open>a string other than the four is refused, a pathname other than the two ignored\<close>
  "demo_urls =
     \<lparr> url_new = (\<lambda>s. find (\<lambda>y. demo_href y = s) [PageSlashTop, PageSlash, Page, PageTop]),
       url_clear_hash =
         (\<lambda>y. case y of PageSlashTop \<Rightarrow> PageSlash | PageTop \<Rightarrow> Page | _ \<Rightarrow> y),
       url_pathname =
         (\<lambda>y. case y of PageSlashTop \<Rightarrow> js ''/x/'' | PageSlash \<Rightarrow> js ''/x/'' | _ \<Rightarrow> js ''/x''),
       url_set_pathname =
         (\<lambda>y q.
            if q = js ''/x''
            then (case y of PageSlashTop \<Rightarrow> PageTop | PageSlash \<Rightarrow> Page | _ \<Rightarrow> y)
            else if q = js ''/x/''
            then (case y of PageTop \<Rightarrow> PageSlashTop | Page \<Rightarrow> PageSlash | _ \<Rightarrow> y)
            else y),
       url_toString = demo_href \<rparr>"

definition demo_dates :: date_api where
  \<comment> \<open>the instants 1600000000000, 1700000000000 and 1700000600000\<close>
  "demo_dates =
     \<lparr> date_parse =
         (\<lambda>s. if s = js ''Tue, 14 Nov 2023 22:13:20 GMT'' \<or> s = js ''2023-11-14T22:13:20.000Z''
              then Some 1700000000000
              else if s = js ''Sun, 13 Sep 2020 12:26:40 GMT'' \<or> s = js ''2020-09-13T12:26:40.000Z''
              then Some 1600000000000
              else if s = js ''2023-11-14T22:23:20.000Z'' then Some 1700000600000
              else None),
       toISOString =
         (\<lambda>t. if t = 1700000000000 then js ''2023-11-14T22:13:20.000Z''
              else if t = 1600000000000 then js ''2020-09-13T12:26:40.000Z''
              else js ''2023-11-14T22:23:20.000Z'') \<rparr>"

definition demo_raw :: "jsval \<Rightarrow> linkfield \<Rightarrow> jsval \<Rightarrow> rawitem" where
  \<comment> \<open>a raw item with a title, a link member and a publication date\<close>
  "demo_raw t l d =
     \<lparr> it_title = t, it_link = l, it_enclosure_url = None, it_description = Undefined,
       it_summary = Undefined, it_content = Undefined, it_pubDate = d,
       it_published = Undefined, it_updated = Undefined \<rparr>"

definition demo_feed :: "rawitem list" where
  "demo_feed =
     [demo_raw (Str title_example) (LinkStr (js ''https://a.example/x/#top''))
        (Str (js ''Tue, 14 Nov 2023 22:13:20 GMT'')),
      demo_raw (Str (js ''Again''))
        (LinkArr [\<lparr> rel = Some (js ''self''), href = Some (js ''https://a.example/x#top'') \<rparr>,
                  \<lparr> rel = Some (js ''alternate''), href = Some (js ''https://a.example/x/'') \<rparr>])
        (Str (js ''Tue, 14 Nov 2023 22:13:20 GMT'')),
      demo_raw (Str (js ''Old'')) (LinkStr (js ''https://a.example/old''))
        (Str (js ''Sun, 13 Sep 2020 12:26:40 GMT'')),
      demo_raw (Str (js ''No link'')) LinkAbsent (Str (js ''Tue, 14 Nov 2023 22:13:20 GMT'')),
      demo_raw (Str (js ''Undated'')) (LinkStr (js ''https://a.example/y'')) (Str (js ''soon''))]"

definition demo_world :: world where
  \<comment> \<open>every reading of the clock is 1700000600000; no hint is a pattern with
      operators, and no query is encoded\<close>
  "demo_world =
     \<lparr> fetch_items =
         (\<lambda>n u. if u = js ''https://feeds.example/news.xml'' then Inr demo_feed
                else Inl (FetchError (js ''HTTP 503''))),
       clock = (\<lambda>s. 1700000600000),
       safeUUID =
         (\<lambda>s. case s of InNormalize n j \<Rightarrow> js ''id-'' @ [0x30 + of_nat j] | _ \<Rightarrow> js ''id''),
       regexp_test = (\<lambda>k s. Inr (ci_contains k s)),
       encodeURIComponent = (\<lambda>q. Inr q) \<rparr>"

definition demo_source :: source where
  "demo_source =
     \<lparr> b_brand = js ''ABC'', b_categoryHints = None,
       b_rss = Some [js ''https://feeds.example/down.xml'', js ''https://feeds.example/news.xml''],
       b_youtube = None, b_useGoogleNewsRSS = None, b_googleQuery = None \<rparr>"

definition demo_entries :: "entry list" where
  \<comment> \<open>what \<open>fetchRSS\<close> returns for the second feed\<close>
  "demo_entries = map (\<lambda>(j, it). to_entry demo_dates demo_world 1 j it) (enumerate 0 demo_feed)"

definition demo_collected :: "item list" where
  \<comment> \<open>what the driver's loop pushes for them\<close>
  "demo_collected = fst (push_entries demo_dates demo_world demo_source 1 0 demo_entries)"

definition demo_world_down :: world where
  \<comment> \<open>the same world with every feed down\<close>
  "demo_world_down = demo_world\<lparr>fetch_items := \<lambda>n u. Inl (FetchError (js ''HTTP 503''))\<rparr>"

definition demo_item :: "jsstring \<Rightarrow> jsstring \<Rightarrow> jsstring \<Rightarrow> jsstring \<Rightarrow> item" where
  \<comment> \<open>an item of the example brand: its identifier, title and summary, date and URL\<close>
  "demo_item i t p u =
     \<lparr> item_id = i, brand = js ''ABC'', title = js ''ABC'' @ fullwidth_colon # t, summary = t,
       publishedAt = p, category = cat_skincare, sourceType = js ''website'', url = u,
       thumbnailURL = None \<rparr>"

definition demo_items :: "item list" where
  \<comment> \<open>the value of \<open>demo_collected\<close>, written out\<close>
  "demo_items =
     [(demo_item (js ''id-0'') title_example (js ''2023-11-14T22:13:20.000Z'')
         (js ''https://a.example/x/#top''))
        \<lparr>title := js ''ABC'' @ fullwidth_colon # tag_new @ title_example\<rparr>,
      demo_item (js ''id-1'') (js ''Again'') (js ''2023-11-14T22:13:20.000Z'')
        (js ''https://a.example/x/''),
      demo_item (js ''id-2'') (js ''Old'') (js ''2020-09-13T12:26:40.000Z'')
        (js ''https://a.example/old''),
      demo_item (js ''id-4'') (js ''Undated'') (js ''2023-11-14T22:23:20.000Z'')
        (js ''https://a.example/y'')]"

section \<open>Properties of the title normalizer\<close>



text \<open>
  C5, as the specification states it: the normalized title of the raw title
  U+65B0 U+4F5C U+30B3 U+30B9 U+30E1 U+767B U+5834 for the brand \<open>ABC\<close> starts with the
  tag U+3010 U+65B0 U+4F5C U+3011. It does not: the brand prefix is put in front of the
  tag.
\<close>

theorem normalizeTitle_example_not_tag_first:
  "\<not> (prefix tag_new (normalizeTitle (js ''ABC'') (Str title_example))
      \<and> sublist (js ''ABC'' @ [fullwidth_colon]) (normalizeTitle (js ''ABC'') (Str title_example)))"
  by code_simp

text \<open>
  C5, amended: the normalized title of that raw title for the brand \<open>ABC\<close> is the
  brand, the full-width colon, the tag and the raw title; it starts with the brand
  and the colon, and it contains the tag.
\<close>

theorem normalizeTitle_example:
  "normalizeTitle (js ''ABC'') (Str title_example)
     = js ''ABC'' @ fullwidth_colon # tag_new @ title_example
   \<and> prefix (js ''ABC'' @ [fullwidth_colon]) (normalizeTitle (js ''ABC'') (Str title_example))
   \<and> sublist tag_new (normalizeTitle (js ''ABC'') (Str title_example))"
  by code_simp

section \<open>Properties of the summarizer\<close>

text \<open>
  What holds of the summarizer: an absent or empty text gives the fixed sentence,
  which is not empty; any other text gives either at most 120 code units, or a string
  that ends at the first full stop of the collapsed and trimmed text, with more than
  20 code units before it.
\<close>

lemma summarizeJP_absent: "\<not> truthy txt \<Longrightarrow> summarizeJP txt = generic_summary"
  by (simp add: summarizeJP_def)

lemma generic_summary_nonempty: "generic_summary \<noteq> []"
  by (simp add: generic_summary_def)

lemma indexOf_bound: "indexOf s c < int (length s)"
  by (induction s) (auto simp: Let_def)

lemma indexOf_found: "0 \<le> indexOf s c \<Longrightarrow> s ! nat (indexOf s c) = c \<and> c \<notin> set (take (nat (indexOf s c)) s)"
proof (induction s)
  case Nil
  then show ?case by simp
next
  case (Cons x xs)
  show ?case
  proof (cases "x = c")
    case True
    then show ?thesis by simp
  next
    case False
    with Cons.prems have i: "0 \<le> indexOf xs c" "indexOf (x # xs) c = indexOf xs c + 1"
      by (auto simp: Let_def split: if_splits)
    with Cons.IH have "xs ! nat (indexOf xs c) = c \<and> c \<notin> set (take (nat (indexOf xs c)) xs)"
      by simp
    with i False show ?thesis by (simp add: nat_add_distrib)
  qed
qed

lemma summarizeJP_shape:
  assumes "truthy txt"
  shows "length (summarizeJP txt) \<le> 120
         \<or> (\<exists>pre. summarizeJP txt = pre @ [full_stop] \<and> full_stop \<notin> set pre \<and> 20 < length pre)"
proof -
  define s where "s = trim (collapse_ws (js_String txt))"
  define i where "i = indexOf s full_stop"
  show ?thesis
  proof (cases "i > 20")
    case False
    with assms show ?thesis by (simp add: summarizeJP_def Let_def s_def i_def)
  next
    case True
    with assms have r: "summarizeJP txt = take (nat (i + 1)) s"
      by (simp add: summarizeJP_def Let_def s_def i_def)
    from True indexOf_found [of s full_stop] have f: "s ! nat i = full_stop"
      "full_stop \<notin> set (take (nat i) s)" by (simp_all add: i_def)
    from indexOf_bound [of s full_stop] True have b: "nat i < length s" by (simp add: i_def)
    from True have "nat (i + 1) = Suc (nat i)" by simp
    with b f have "take (nat (i + 1)) s = take (nat i) s @ [full_stop]"
      by (simp add: take_Suc_conv_app_nth)
    moreover from True b have "20 < length (take (nat i) s)" by simp
    ultimately have "summarizeJP txt = take (nat i) s @ [full_stop]
        \<and> full_stop \<notin> set (take (nat i) s) \<and> 20 < length (take (nat i) s)"
      using r f by simp
    then show ?thesis by blast
  qed
qed

lemma normalize_entry_summary:
  "normalize_entry D W b n j e = Inr x \<Longrightarrow> summary x = summarizeJP (js_or (e_desc e) (e_title e))"
  by (auto simp: normalize_entry_def Let_def split: sum.splits)

text \<open>
  C6. The summary of every item is claimed to be non-empty. A text of white space
  only is not empty, so it passes the test for an absent text; trimming then leaves
  nothing, and the summary is the empty string. The summary of a single space:
\<close>

theorem summarizeJP_blank_is_empty:
  "truthy (Str [0x20]) \<and> summarizeJP (Str [0x20]) = []"
  by code_simp

section \<open>Properties of the link extraction\<close>

lemma is_alternate_eq:
  "is_alternate = (\<lambda>l. rel l = Some (js ''alternate'') \<and> href_of l \<noteq> [])"
  by (simp add: fun_eq_iff is_alternate_def)

text \<open>
  C7. The link of a raw entry is: the link member when it is a non-empty string; the
  \<open>href\<close> of a single link object that carries one; for a sequence of link objects,
  the \<open>href\<close> of the first one marked \<open>alternate\<close> that carries an \<open>href\<close>, and
  without such a one the \<open>href\<close> of the first object that carries any; when the link
  member gives nothing (it is absent or empty, or no object carries an \<open>href\<close>), the
  enclosure URL, and the empty string without one. The parser stores that link in
  the entry, and the driver skips an entry whose link is empty.
\<close>

theorem pickLink_precedence:
  fixes it :: rawitem
  shows
  "(it_link it = LinkStr s \<and> s \<noteq> [] \<longrightarrow> pickLink it = s)
   \<and> (it_link it = LinkObj l \<and> href l = Some h \<and> h \<noteq> [] \<longrightarrow> pickLink it = h)
   \<and> (it_link it = LinkArr ls
        \<and> find (\<lambda>l. rel l = Some (js ''alternate'') \<and> href_of l \<noteq> []) ls = Some l
        \<longrightarrow> pickLink it = href_of l)
   \<and> (it_link it = LinkArr ls
        \<and> (\<forall>l \<in> set ls. \<not> (rel l = Some (js ''alternate'') \<and> href_of l \<noteq> []))
        \<and> find (\<lambda>l. href_of l \<noteq> []) ls = Some l
        \<longrightarrow> pickLink it = href_of l)
   \<and> (it_link it = LinkAbsent \<or> it_link it = LinkStr []
        \<or> (\<exists>l'. it_link it = LinkObj l' \<and> href_of l' = [])
        \<or> (\<exists>ls'. it_link it = LinkArr ls' \<and> (\<forall>l' \<in> set ls'. href_of l' = []))
        \<longrightarrow> pickLink it = (case it_enclosure_url it of None \<Rightarrow> [] | Some u \<Rightarrow> u))
   \<and> e_link (to_entry D W n j it) = pickLink it
   \<and> (pickLink it = [] \<longrightarrow>
        push_entries D W b n j (to_entry D W n j it # es) = push_entries D W b n (Suc j) es)"
proof (intro conjI impI)
  assume "it_link it = LinkStr s \<and> s \<noteq> []"
  then show "pickLink it = s" by (simp add: pickLink_def string_or_enclosure_def)
next
  assume "it_link it = LinkObj l \<and> href l = Some h \<and> h \<noteq> []"
  then show "pickLink it = h" by (simp add: pickLink_def href_of_def)
next
  assume "it_link it = LinkArr ls
    \<and> find (\<lambda>l. rel l = Some (js ''alternate'') \<and> href_of l \<noteq> []) ls = Some l"
  then show "pickLink it = href_of l" by (simp add: pickLink_def is_alternate_eq)
next
  assume a: "it_link it = LinkArr ls
    \<and> (\<forall>l \<in> set ls. \<not> (rel l = Some (js ''alternate'') \<and> href_of l \<noteq> []))
    \<and> find (\<lambda>l. href_of l \<noteq> []) ls = Some l"
  then have "find is_alternate ls = None" by (simp add: find_None_iff is_alternate_def)
  with a show "pickLink it = href_of l" by (simp add: pickLink_def)
next
  assume "it_link it = LinkAbsent \<or> it_link it = LinkStr []
    \<or> (\<exists>l'. it_link it = LinkObj l' \<and> href_of l' = [])
    \<or> (\<exists>ls'. it_link it = LinkArr ls' \<and> (\<forall>l' \<in> set ls'. href_of l' = []))"
  then consider "it_link it = LinkAbsent" | "it_link it = LinkStr []"
    | l' where "it_link it = LinkObj l'" "href_of l' = []"
    | ls' where "it_link it = LinkArr ls'" "\<forall>l' \<in> set ls'. href_of l' = []"
    by blast
  then show "pickLink it = (case it_enclosure_url it of None \<Rightarrow> [] | Some u \<Rightarrow> u)"
  proof cases
    case 4
    then have "find is_alternate ls' = None" "find (\<lambda>l. href_of l \<noteq> []) ls' = None"
      by (simp_all add: find_None_iff is_alternate_def)
    with 4 show ?thesis
      by (simp add: pickLink_def string_or_enclosure_def enclosure_or_empty_def)
  qed (simp_all add: pickLink_def string_or_enclosure_def enclosure_or_empty_def)
next
  show "e_link (to_entry D W n j it) = pickLink it" by (simp add: to_entry_def)
next
  assume "pickLink it = []"
  then show "push_entries D W b n j (to_entry D W n j it # es) = push_entries D W b n (Suc j) es"
    by (simp add: to_entry_def)
qed

theorem pickLink_precedence_witness:
  "pickLink (demo_feed ! 1) = js ''https://a.example/x/''
   \<and> pickLink (demo_feed ! 3) = []
   \<and> push_entries demo_dates demo_world demo_source 1 3
        (to_entry demo_dates demo_world 1 3 (demo_feed ! 3) # []) = ([], None)"
proof -
  let ?alt = "\<lparr> rel = Some (js ''alternate''), href = Some (js ''https://a.example/x/'') \<rparr>"
  let ?ls = "[\<lparr> rel = Some (js ''self''), href = Some (js ''https://a.example/x#top'') \<rparr>, ?alt]"
  have link1: "it_link (demo_feed ! 1) = LinkArr ?ls"
    by (simp add: demo_feed_def demo_raw_def)
  have alt: "find (\<lambda>l. rel l = Some (js ''alternate'') \<and> href_of l \<noteq> []) ?ls = Some ?alt"
    by code_simp
  have h: "href_of ?alt = js ''https://a.example/x/''"
    by (simp add: href_of_def)
  have link3: "it_link (demo_feed ! 3) = LinkAbsent" "it_enclosure_url (demo_feed ! 3) = None"
    by (simp_all add: demo_feed_def demo_raw_def)
  from pickLink_precedence [where it = "demo_feed ! 1" and ls = ?ls and l = ?alt] link1 alt h
  have one: "pickLink (demo_feed ! 1) = js ''https://a.example/x/''"
    by simp
  from pickLink_precedence [where it = "demo_feed ! 3"] link3
  have three: "pickLink (demo_feed ! 3) = []"
    by simp
  from pickLink_precedence [where it = "demo_feed ! 3" and D = demo_dates and W = demo_world
      and n = 1 and j = 3 and b = demo_source and es = "[]"]
    three
  have "push_entries demo_dates demo_world demo_source 1 3
        (to_entry demo_dates demo_world 1 3 (demo_feed ! 3) # []) = ([], None)"
    by simp
  with one three show ?thesis by simp
qed

section \<open>Properties of the canonical URL normalizer\<close>

lemma canonical_object_fixed:
  assumes "url_laws api"
  shows "canonical_object api (canonical_object api x) = canonical_object api x"
proof -
  define x1 where "x1 = url_clear_hash api x"
  define p where "p = url_pathname api x1"
  define x2 where "x2 = url_set_pathname api x1 (strip_trailing_slashes p)"
  from assms have clear: "url_clear_hash api x1 = x1"
    and clear2: "url_clear_hash api x2 = x2"
    by (simp_all add: url_laws_def x1_def x2_def)
  from assms have trail: "x2 = x1 \<or> url_pathname api x2 = [slash]
      \<or> \<not> suffix [slash] (url_pathname api x2)"
    unfolding url_laws_def x2_def p_def by blast
  show ?thesis
  proof (cases "p \<noteq> [slash] \<and> suffix [slash] p")
    case False
    then have "canonical_object api x = x1"
      by (auto simp: canonical_object_def Let_def x1_def p_def)
    moreover from False clear have "canonical_object api x1 = x1"
      by (auto simp: canonical_object_def Let_def p_def)
    ultimately show ?thesis by simp
  next
    case True
    then have c: "canonical_object api x = x2"
      by (simp add: canonical_object_def Let_def x1_def p_def x2_def)
    from trail show ?thesis
    proof (elim disjE)
      assume "x2 = x1"
      with c True clear show ?thesis
        by (auto simp: canonical_object_def Let_def p_def x2_def)
    next
      assume "url_pathname api x2 = [slash]"
      with c clear2 show ?thesis by (auto simp: canonical_object_def Let_def)
    next
      assume "\<not> suffix [slash] (url_pathname api x2)"
      with c clear2 show ?thesis by (auto simp: canonical_object_def Let_def)
    qed
  qed
qed

text \<open>
  C9. \<open>normalizeUrl\<close> returns a string for every string: where the URL constructor
  throws, the \<open>catch\<close> branch returns the input unchanged. Normalizing twice is
  normalizing once: on a string that does not parse because it comes back unchanged,
  and on a string that parses by the properties \<open>url_laws\<close> of the runtime's URL
  class.
\<close>

theorem normalizeUrl_idempotent:
  "(url_new api u = None \<longrightarrow> normalizeUrl api u = u)
   \<and> (url_new api u = None \<or> url_laws api \<longrightarrow>
        normalizeUrl api (normalizeUrl api u) = normalizeUrl api u)"
proof (intro conjI impI)
  assume "url_new api u = None"
  then show "normalizeUrl api u = u" by (simp add: normalizeUrl_def)
next
  assume a: "url_new api u = None \<or> url_laws api"
  show "normalizeUrl api (normalizeUrl api u) = normalizeUrl api u"
  proof (cases "url_new api u")
    case None
    then show ?thesis by (simp add: normalizeUrl_def)
  next
    case (Some x)
    with a have laws: "url_laws api" by simp
    then have "url_new api (url_toString api (canonical_object api x))
        = Some (canonical_object api x)"
      by (simp add: url_laws_def)
    with Some canonical_object_fixed [OF laws, of x] show ?thesis
      by (simp add: normalizeUrl_def)
  qed
qed

lemma demo_strip:
  "strip_trailing_slashes (js ''/x/'') = js ''/x''"
  "strip_trailing_slashes (js ''/x'') = js ''/x''"
  by code_simp+

lemma demo_paths:
  "js ''/x'' \<noteq> js ''/x/''" "js ''/x'' \<noteq> [slash]" "\<not> suffix [slash] (js ''/x'')"
  by code_simp+

lemma demo_new: "url_new demo_urls (demo_href y) = Some y"
  by (cases y; hypsubst; code_simp)

lemma demo_urls_laws: "url_laws demo_urls"
  unfolding url_laws_def
proof (intro conjI allI)
  fix y show "url_new demo_urls (url_toString demo_urls y) = Some y"
    using demo_new by (simp add: demo_urls_def)
next
  fix y show "url_clear_hash demo_urls (url_clear_hash demo_urls y) = url_clear_hash demo_urls y"
    by (cases y) (simp_all add: demo_urls_def)
next
  fix y q show "url_clear_hash demo_urls (url_set_pathname demo_urls y q)
             = url_set_pathname demo_urls (url_clear_hash demo_urls y) q"
    by (cases y) (simp_all add: demo_urls_def)
next
  fix y show "url_set_pathname demo_urls y (strip_trailing_slashes (url_pathname demo_urls y)) = y
          \<or> url_pathname demo_urls (url_set_pathname demo_urls y (strip_trailing_slashes (url_pathname demo_urls y)))
              = [slash]
          \<or> \<not> suffix [slash]
               (url_pathname demo_urls (url_set_pathname demo_urls y (strip_trailing_slashes (url_pathname demo_urls y))))"
    by (cases y) (simp_all add: demo_urls_def demo_strip demo_paths)
qed

theorem normalizeUrl_idempotent_witness:
  "url_laws demo_urls
   \<and> normalizeUrl demo_urls (js ''https://a.example/x/#top'') = js ''https://a.example/x''
   \<and> normalizeUrl demo_urls (normalizeUrl demo_urls (js ''https://a.example/x/#top''))
       = normalizeUrl demo_urls (js ''https://a.example/x/#top'')
   \<and> url_new demo_urls (js ''not a url'') = None
   \<and> normalizeUrl demo_urls (js ''not a url'') = js ''not a url''"
proof -
  have v: "normalizeUrl demo_urls (js ''https://a.example/x/#top'') = js ''https://a.example/x''"
    by code_simp
  have n: "url_new demo_urls (js ''not a url'') = None"
    by code_simp
  from normalizeUrl_idempotent [of demo_urls "js ''https://a.example/x/#top''"] demo_urls_laws
  have "normalizeUrl demo_urls (normalizeUrl demo_urls (js ''https://a.example/x/#top''))
       = normalizeUrl demo_urls (js ''https://a.example/x/#top'')"
    by simp
  moreover from normalizeUrl_idempotent [of demo_urls "js ''not a url''"] n
  have "normalizeUrl demo_urls (js ''not a url'') = js ''not a url''"
    by simp
  ultimately show ?thesis using v n demo_urls_laws by simp
qed

section \<open>Properties of the deduplication\<close>



lemma dedupe_from_complete:
  "x \<in> set xs \<Longrightarrow> normalizeUrl api (url x) \<noteq> [] \<Longrightarrow> normalizeUrl api (url x) \<notin> seen \<Longrightarrow>
     normalizeUrl api (url x) \<in> set (map url (dedupe_from api seen xs))"
proof (induction xs arbitrary: seen)
  case Nil
  then show ?case by simp
next
  case (Cons a xs)
  define k where "k = normalizeUrl api (url a)"
  show ?case
  proof (cases "k = [] \<or> k \<in> seen")
    case True
    with Cons.prems have "x \<in> set xs" by (auto simp: k_def)
    from Cons.IH [OF this Cons.prems(2,3)] True show ?thesis by (simp add: k_def Let_def)
  next
    case False
    show ?thesis
    proof (cases "normalizeUrl api (url x) = k")
      case True
      with False show ?thesis by (simp add: k_def Let_def)
    next
      case neq: False
      with Cons.prems have "x \<in> set xs" by (auto simp: k_def)
      moreover from neq Cons.prems have "normalizeUrl api (url x) \<notin> insert k seen" by simp
      ultimately have "normalizeUrl api (url x) \<in> set (map url (dedupe_from api (insert k seen) xs))"
        using Cons.IH Cons.prems(2) by blast
      with False show ?thesis by (simp add: k_def Let_def)
    qed
  qed
qed

lemma dedupe_from_origin:
  "y \<in> set (dedupe_from api seen xs) \<Longrightarrow> \<exists>x \<in> set xs. y = x\<lparr>url := url y\<rparr>"
  by (induction xs arbitrary: seen) (auto simp: Let_def split: if_splits)

section \<open>Properties of the post-processing\<close>

lemma set_sort_newest_first: "set (sort_newest_first D xs) = set xs"
  by (simp add: sort_newest_first_def)

lemma post_process_cases:
  "post_process api D W xs =
     (let ys = sort_newest_first D
                 (dedupeByUrl api (filter (in_window D (clock W PostProcess)) xs))
      in if ys = [] then [fallback_item D W] else ys)"
  by (simp add: post_process_def Let_def)



lemma in_window_url [simp]: "in_window D now (x\<lparr>url := k\<rparr>) = in_window D now x"
  by (simp add: in_window_def)

lemma in_window_iff:
  "in_window D now x \<longleftrightarrow>
     (\<exists>t. date_parse D (publishedAt x) = Some t \<and> now - ninety_days \<le> t \<and> t \<le> now + one_day)"
  by (simp add: in_window_def split: option.splits)

lemma sort_newest_first_Nil: "sort_newest_first D xs = [] \<longleftrightarrow> xs = []"
proof -
  have "length (sort_newest_first D xs) = length xs"
    by (simp add: sort_newest_first_def)
  then show ?thesis by (metis length_0_conv)
qed

lemma post_process_member:
  assumes "x \<in> set xs" "in_window D (clock W PostProcess) x" "normalizeUrl api (url x) \<noteq> []"
  shows "normalizeUrl api (url x) \<in> url ` set (post_process api D W xs)"
proof -
  let ?kept = "filter (in_window D (clock W PostProcess)) xs"
  from assms have "x \<in> set ?kept" by simp
  from dedupe_from_complete [OF this assms(3), of "{}"]
  have k: "normalizeUrl api (url x) \<in> url ` set (dedupeByUrl api ?kept)"
    by (simp add: dedupeByUrl_def)
  then have "set (sort_newest_first D (dedupeByUrl api ?kept)) \<noteq> {}"
    by (auto simp: set_sort_newest_first)
  then have "sort_newest_first D (dedupeByUrl api ?kept) \<noteq> []"
    by auto
  with k show ?thesis
    by (simp add: post_process_cases Let_def set_sort_newest_first)
qed

lemma post_process_origin:
  assumes "y \<in> set (post_process api D W xs)"
  shows "y = fallback_item D W
         \<or> (\<exists>x \<in> set xs. in_window D (clock W PostProcess) x \<and> y = x\<lparr>url := url y\<rparr>)"
proof -
  let ?kept = "filter (in_window D (clock W PostProcess)) xs"
  show ?thesis
  proof (cases "dedupeByUrl api ?kept = []")
    case True
    with assms show ?thesis by (simp add: post_process_cases Let_def sort_newest_first_Nil)
  next
    case False
    with assms have "y \<in> set (dedupeByUrl api ?kept)"
      by (simp add: post_process_cases Let_def sort_newest_first_Nil set_sort_newest_first)
    from dedupe_from_origin [OF this [unfolded dedupeByUrl_def]]
    show ?thesis by auto
  qed
qed

lemma post_process_nonempty: "post_process api D W xs \<noteq> []"
  by (simp add: post_process_cases Let_def)

lemma post_process_Nil: "post_process api D W [] = [fallback_item D W]"
  by (simp add: post_process_cases Let_def dedupeByUrl_def sort_newest_first_def)

lemma demo_clock: "clock demo_world s = 1700000600000"
  by (simp add: demo_world_def)

lemma demo_reads_back:
  "date_parse demo_dates (toISOString demo_dates 1700000600000) = Some 1700000600000"
  by code_simp



text \<open>
  C3. Every item of the written sequence has a date that parses to an instant within
  90 days before and one day after \<open>now\<close>, the reading of the clock at the start of
  the post-processing; and every item other than the fallback item comes from a
  collected item inside that window, so that no collected item outside it is written.
  The fallback item is stamped at a later reading of the clock: for it the statement
  needs that this reading lies in the window of the first, and that its ISO string
  parses back to it.
\<close>

theorem time_window:
  assumes "date_parse D (toISOString D (clock W Fallback)) = Some (clock W Fallback)"
    and "clock W PostProcess - ninety_days \<le> clock W Fallback"
    and "clock W Fallback \<le> clock W PostProcess + one_day"
  shows "\<forall>y \<in> set (post_process api D W xs).
           (\<exists>t. date_parse D (publishedAt y) = Some t
               \<and> clock W PostProcess - 90 * 24 * 60 * 60 * 1000 \<le> t
               \<and> t \<le> clock W PostProcess + 24 * 60 * 60 * 1000)
           \<and> (y = fallback_item D W
               \<or> (\<exists>x \<in> set xs. in_window D (clock W PostProcess) x \<and> y = x\<lparr>url := url y\<rparr>))"
proof
  fix y
  assume y: "y \<in> set (post_process api D W xs)"
  note origin = post_process_origin [OF y]
  from assms have "in_window D (clock W PostProcess) (fallback_item D W)"
    by (simp add: in_window_def fallback_item_def nowISO_def)
  with origin have "in_window D (clock W PostProcess) y"
    by (metis in_window_url)
  then have "\<exists>t. date_parse D (publishedAt y) = Some t
      \<and> clock W PostProcess - 90 * 24 * 60 * 60 * 1000 \<le> t
      \<and> t \<le> clock W PostProcess + 24 * 60 * 60 * 1000"
    by (simp add: in_window_iff ninety_days_def one_day_def)
  with origin show "(\<exists>t. date_parse D (publishedAt y) = Some t
               \<and> clock W PostProcess - 90 * 24 * 60 * 60 * 1000 \<le> t
               \<and> t \<le> clock W PostProcess + 24 * 60 * 60 * 1000)
           \<and> (y = fallback_item D W
               \<or> (\<exists>x \<in> set xs. in_window D (clock W PostProcess) x \<and> y = x\<lparr>url := url y\<rparr>))"
    by blast
qed

theorem time_window_witness:
  "date_parse demo_dates (toISOString demo_dates (clock demo_world Fallback))
     = Some (clock demo_world Fallback)
   \<and> clock demo_world PostProcess - ninety_days \<le> clock demo_world Fallback
   \<and> clock demo_world Fallback \<le> clock demo_world PostProcess + one_day
   \<and> \<not> in_window demo_dates (clock demo_world PostProcess) (demo_items ! 2)
   \<and> map item_id (post_process demo_urls demo_dates demo_world demo_items)
       = [js ''id-4'', js ''id-0'']
   \<and> list_all (\<lambda>y. \<exists>t. date_parse demo_dates (publishedAt y) = Some t
                     \<and> 1700000600000 - 90 * 24 * 60 * 60 * 1000 \<le> t
                     \<and> t \<le> 1700000600000 + 24 * 60 * 60 * 1000)
        (post_process demo_urls demo_dates demo_world demo_items)"
proof -
  have h: "date_parse demo_dates (toISOString demo_dates (clock demo_world Fallback))
     = Some (clock demo_world Fallback)"
    "clock demo_world PostProcess - ninety_days \<le> clock demo_world Fallback"
    "clock demo_world Fallback \<le> clock demo_world PostProcess + one_day"
    by (simp_all add: demo_clock demo_reads_back ninety_days_def one_day_def)
  have old: "\<not> in_window demo_dates (clock demo_world PostProcess) (demo_items ! 2)"
    unfolding demo_clock by code_simp
  have ids: "map item_id (post_process demo_urls demo_dates demo_world demo_items)
       = [js ''id-4'', js ''id-0'']"
    by code_simp
  from time_window [OF h, of demo_urls demo_items]
  have "list_all (\<lambda>y. \<exists>t. date_parse demo_dates (publishedAt y) = Some t
                     \<and> 1700000600000 - 90 * 24 * 60 * 60 * 1000 \<le> t
                     \<and> t \<le> 1700000600000 + 24 * 60 * 60 * 1000)
        (post_process demo_urls demo_dates demo_world demo_items)"
    unfolding list_all_iff demo_clock by blast
  with h old ids show ?thesis by simp
qed

section \<open>Properties of the driver\<close>

lemma try_feed_all: "all (try_feed D W b st f) = all st @ feed_items D W b (totalFeeds st) f"
  by (simp add: try_feed_def feed_items_def Let_def split: sum.splits prod.splits option.splits)

lemma try_feed_totalFeeds: "totalFeeds (try_feed D W b st f) = Suc (totalFeeds st)"
  by (simp add: try_feed_def Let_def split: sum.splits prod.splits option.splits)

lemma foldl_try_feed:
  "all (foldl (try_feed D W b) st fs)
     = all st @ concat (map (\<lambda>(i, f). feed_items D W b i f) (enumerate (totalFeeds st) fs))
   \<and> totalFeeds (foldl (try_feed D W b) st fs) = totalFeeds st + length fs"
proof (induction fs arbitrary: st)
  case Nil
  then show ?case by simp
next
  case (Cons f fs)
  from Cons.IH [of "try_feed D W b st f"] show ?case
    by (simp add: try_feed_all try_feed_totalFeeds)
qed

lemma collect_all:
  "collect D W bs st = Inr st' \<Longrightarrow>
     all st' = all st @ concat (map (\<lambda>(b, i, f). feed_items D W b i f) (endpoints W (totalFeeds st) bs))
     \<and> totalFeeds st' = totalFeeds st + length (endpoints W (totalFeeds st) bs)"
proof (induction bs arbitrary: st)
  case Nil
  then show ?case by simp
next
  case (Cons b bs)
  from Cons.prems obtain fs where fs: "feedURLs W b = Inr fs"
    and rest: "collect D W bs (foldl (try_feed D W b) st fs) = Inr st'"
    by (auto split: sum.splits)
  have m: "(\<lambda>(b, i, f). feed_items D W b i f) \<circ> Pair b = (\<lambda>(i, f). feed_items D W b i f)"
    by (auto simp: fun_eq_iff)
  from Cons.IH [OF rest] foldl_try_feed [of D W b st fs] fs show ?case
    by (simp add: m)
qed

lemma collect_completes:
  "\<forall>b \<in> set bs. \<exists>fs. feedURLs W b = Inr fs \<Longrightarrow> \<exists>st'. collect D W bs st = Inr st'"
proof (induction bs arbitrary: st)
  case Nil
  then show ?case by simp
next
  case (Cons b bs)
  then obtain fs where "feedURLs W b = Inr fs" by auto
  with Cons show ?case by simp
qed

lemma try_feed_errors:
  "feed_errors (try_feed D W b st f) = feed_errors st @ feed_report D W b (totalFeeds st) f"
  by (simp add: try_feed_def feed_report_def Let_def split: sum.splits prod.splits option.splits)

lemma foldl_try_feed_errors:
  "feed_errors (foldl (try_feed D W b) st fs)
     = feed_errors st @ concat (map (\<lambda>(i, f). feed_report D W b i f) (enumerate (totalFeeds st) fs))"
proof (induction fs arbitrary: st)
  case Nil
  then show ?case by simp
next
  case (Cons f fs)
  from Cons.IH [of "try_feed D W b st f"] show ?case
    by (simp add: try_feed_errors try_feed_totalFeeds)
qed

lemma collect_errors:
  "collect D W bs st = Inr st' \<Longrightarrow>
     feed_errors st' = feed_errors st
       @ concat (map (\<lambda>(b, i, f). feed_report D W b i f) (endpoints W (totalFeeds st) bs))"
proof (induction bs arbitrary: st)
  case Nil
  then show ?case by simp
next
  case (Cons b bs)
  from Cons.prems obtain fs where fs: "feedURLs W b = Inr fs"
    and rest: "collect D W bs (foldl (try_feed D W b) st fs) = Inr st'"
    by (auto split: sum.splits)
  have m: "(\<lambda>(b, i, f). feed_report D W b i f) \<circ> Pair b = (\<lambda>(i, f). feed_report D W b i f)"
    by (auto simp: fun_eq_iff)
  from Cons.IH [OF rest] foldl_try_feed_errors [of D W b st fs] foldl_try_feed [of D W b st fs] fs
  show ?case
    by (simp add: m)
qed

lemma endpoint_items_collected:
  assumes "collect D W brands initial_state = Inr st"
    and "(b, n, f) \<in> set (endpoints W 0 brands)"
  shows "set (feed_items D W b n f) \<subseteq> set (all st)"
    and "set (feed_report D W b n f) \<subseteq> set (feed_errors st)"
proof -
  from collect_all [OF assms(1)] assms(2) show "set (feed_items D W b n f) \<subseteq> set (all st)"
    by (fastforce simp: initial_state_def)
  from collect_errors [OF assms(1)] assms(2) show "set (feed_report D W b n f) \<subseteq> set (feed_errors st)"
    by (fastforce simp: initial_state_def)
qed

lemma all_feeds_fail_collects_nothing:
  assumes "collect D W brands initial_state = Inr st"
    and "\<forall>(b, n, f) \<in> set (endpoints W 0 brands). \<exists>e. fetchRSS D W n f = Inl e"
  shows "all st = []"
proof -
  from assms(2) have "\<forall>(b, n, f) \<in> set (endpoints W 0 brands). feed_items D W b n f = []"
    by (auto simp: feed_items_def)
  then have "concat (map (\<lambda>(b, i, f). feed_items D W b i f) (endpoints W 0 brands)) = []"
    by auto
  with collect_all [OF assms(1)] show ?thesis by (simp add: initial_state_def)
qed

lemma demo_collected_eq: "demo_collected = demo_items"
  by code_simp

text \<open>
  C4. When nothing is left after the time filter, the deduplication and the sort, the
  written sequence is exactly the fallback item: its brand is U+30C6 U+30B9 U+30C8
  U+FF08 \<open>feed\<close> U+672A U+53D6 U+5F97 U+FF09, its date the ISO string of the clock, its
  category skincare, its source type \<open>website\<close>, its URL the placeholder. So the
  written sequence is never empty; and a run in which every feed of every source
  fails writes the fallback item alone.
\<close>

theorem empty_result_fallback:
  "(sort_newest_first D (dedupeByUrl api (filter (in_window D (clock W PostProcess)) xs)) = []
      \<longrightarrow> post_process api D W xs = [fallback_item D W])
   \<and> post_process api D W xs \<noteq> []
   \<and> brand (fallback_item D W) = fallback_brand
   \<and> publishedAt (fallback_item D W) = toISOString D (clock W Fallback)
   \<and> category (fallback_item D W) = cat_skincare
   \<and> sourceType (fallback_item D W) = js ''website''
   \<and> url (fallback_item D W) = js ''https://example.com/''
   \<and> ((\<forall>b \<in> set brands. \<exists>fs. feedURLs W b = Inr fs)
        \<and> (\<forall>(b, n, f) \<in> set (endpoints W 0 brands). \<exists>e. fetchRSS D W n f = Inl e)
      \<longrightarrow> (\<exists>r. main api D W brands = Inr r \<and> written r = [fallback_item D W]))"
proof (intro conjI impI)
  assume "sort_newest_first D (dedupeByUrl api (filter (in_window D (clock W PostProcess)) xs)) = []"
  then show "post_process api D W xs = [fallback_item D W]"
    by (simp add: post_process_cases Let_def)
next
  show "post_process api D W xs \<noteq> []" by (rule post_process_nonempty)
next
  assume a: "(\<forall>b \<in> set brands. \<exists>fs. feedURLs W b = Inr fs)
        \<and> (\<forall>(b, n, f) \<in> set (endpoints W 0 brands). \<exists>e. fetchRSS D W n f = Inl e)"
  then obtain st where st: "collect D W brands initial_state = Inr st"
    using collect_completes [of brands W D initial_state] by blast
  with a have "all st = []" by (blast intro: all_feeds_fail_collects_nothing)
  with st show "\<exists>r. main api D W brands = Inr r \<and> written r = [fallback_item D W]"
    by (simp add: main_def post_process_Nil)
qed (simp_all add: fallback_item_def nowISO_def)

theorem empty_result_fallback_witness:
  "feedURLs demo_world_down demo_source
     = Inr [js ''https://feeds.example/down.xml'', js ''https://feeds.example/news.xml'']
   \<and> (\<exists>r. main demo_urls demo_dates demo_world_down [demo_source] = Inr r
          \<and> written r = [fallback_item demo_dates demo_world_down]
          \<and> map brand (written r) = [fallback_brand])
   \<and> sort_newest_first demo_dates
        (dedupeByUrl demo_urls
           (filter (in_window demo_dates (clock demo_world PostProcess)) [demo_items ! 2])) = []
   \<and> post_process demo_urls demo_dates demo_world [demo_items ! 2]
       = [fallback_item demo_dates demo_world]"
proof -
  note fb = empty_result_fallback [of demo_dates demo_urls demo_world_down "[]" "[demo_source]"]
  have cfg: "feedURLs demo_world_down demo_source
     = Inr [js ''https://feeds.example/down.xml'', js ''https://feeds.example/news.xml'']"
    by code_simp
  have eps: "endpoints demo_world_down 0 [demo_source]
     = [(demo_source, 0, js ''https://feeds.example/down.xml''),
        (demo_source, 1, js ''https://feeds.example/news.xml'')]"
    by (simp add: cfg enumerate_eq_zip upt_rec)
  have down: "fetchRSS demo_dates demo_world_down n f = Inl (FetchError (js ''HTTP 503''))" for n f
    by (simp add: fetchRSS_def demo_world_down_def)
  from fb cfg eps down
  obtain r where r: "main demo_urls demo_dates demo_world_down [demo_source] = Inr r"
    "written r = [fallback_item demo_dates demo_world_down]"
    by auto
  have old: "sort_newest_first demo_dates
        (dedupeByUrl demo_urls
           (filter (in_window demo_dates (clock demo_world PostProcess)) [demo_items ! 2])) = []"
    by code_simp
  from empty_result_fallback [of demo_dates demo_urls demo_world "[demo_items ! 2]"] old
  have "post_process demo_urls demo_dates demo_world [demo_items ! 2]
       = [fallback_item demo_dates demo_world]"
    by blast
  with cfg r old fb show ?thesis by simp
qed



text \<open>
  C1. Whatever the outcomes of the fetches, a run whose feed lists can be built
  completes and writes its sequence, and it has tried every feed of the schedule. A
  feed whose fetch or parse fails is reported with its brand, its URL and the error,
  and the loop goes on: every item pushed for a feed that was fetched and parsed is
  in the collection, whatever happened to the feeds before and after it, and if it
  lies in the time window, its canonical URL is the URL of a written item.
\<close>

theorem feed_failure_isolated:
  assumes "\<forall>b \<in> set brands. \<exists>fs. feedURLs W b = Inr fs"
  shows "\<exists>st. collect D W brands initial_state = Inr st
      \<and> main api D W brands
          = Inr \<lparr> written = post_process api D W (all st), ok = okFeeds st,
                  total = totalFeeds st, reported = feed_errors st \<rparr>
      \<and> totalFeeds st = length (endpoints W 0 brands)
      \<and> (\<forall>(b, n, f) \<in> set (endpoints W 0 brands).
           (\<forall>e. fetchRSS D W n f = Inl e \<longrightarrow> (b_brand b, f, e) \<in> set (feed_errors st))
         \<and> (\<forall>es. fetchRSS D W n f = Inr es \<longrightarrow>
              (\<forall>x \<in> set (fst (push_entries D W b n 0 es)).
                 x \<in> set (all st)
               \<and> (in_window D (clock W PostProcess) x \<and> normalizeUrl api (url x) \<noteq> [] \<longrightarrow>
                    normalizeUrl api (url x) \<in> url ` set (post_process api D W (all st))))))"
proof -
  from collect_completes [OF assms] obtain st where st: "collect D W brands initial_state = Inr st"
    by blast
  have m: "main api D W brands
          = Inr \<lparr> written = post_process api D W (all st), ok = okFeeds st,
                  total = totalFeeds st, reported = feed_errors st \<rparr>"
    using st by (simp add: main_def)
  have tot: "totalFeeds st = length (endpoints W 0 brands)"
    using collect_all [OF st] by (simp add: initial_state_def)
  have ep: "(\<forall>e. fetchRSS D W n f = Inl e \<longrightarrow> (b_brand b, f, e) \<in> set (feed_errors st))
         \<and> (\<forall>es. fetchRSS D W n f = Inr es \<longrightarrow>
              (\<forall>x \<in> set (fst (push_entries D W b n 0 es)).
                 x \<in> set (all st)
               \<and> (in_window D (clock W PostProcess) x \<and> normalizeUrl api (url x) \<noteq> [] \<longrightarrow>
                    normalizeUrl api (url x) \<in> url ` set (post_process api D W (all st)))))"
    if "(b, n, f) \<in> set (endpoints W 0 brands)" for b n f
  proof (intro conjI allI impI ballI)
    fix e assume "fetchRSS D W n f = Inl e"
    then have "feed_report D W b n f = [(b_brand b, f, e)]" by (simp add: feed_report_def)
    with endpoint_items_collected(2) [OF st that]
    show "(b_brand b, f, e) \<in> set (feed_errors st)" by simp
  next
    fix es x
    assume "fetchRSS D W n f = Inr es" and "x \<in> set (fst (push_entries D W b n 0 es))"
    then have "x \<in> set (feed_items D W b n f)" by (simp add: feed_items_def)
    with endpoint_items_collected(1) [OF st that] show x: "x \<in> set (all st)" by blast
    assume "in_window D (clock W PostProcess) x \<and> normalizeUrl api (url x) \<noteq> []"
    with x show "normalizeUrl api (url x) \<in> url ` set (post_process api D W (all st))"
      by (simp add: post_process_member)
  qed
  from st m tot ep show ?thesis by blast
qed

theorem feed_failure_isolated_witness:
  "feedURLs demo_world demo_source
     = Inr [js ''https://feeds.example/down.xml'', js ''https://feeds.example/news.xml'']
   \<and> fetchRSS demo_dates demo_world 0 (js ''https://feeds.example/down.xml'')
       = Inl (FetchError (js ''HTTP 503''))
   \<and> fetchRSS demo_dates demo_world 1 (js ''https://feeds.example/news.xml'') = Inr demo_entries
   \<and> (\<exists>r. main demo_urls demo_dates demo_world [demo_source] = Inr r
          \<and> total r = 2
          \<and> (js ''ABC'', js ''https://feeds.example/down.xml'', FetchError (js ''HTTP 503''))
              \<in> set (reported r)
          \<and> js ''https://a.example/x'' \<in> url ` set (written r))"
proof -
  let ?down = "js ''https://feeds.example/down.xml''"
  let ?news = "js ''https://feeds.example/news.xml''"
  have cfg: "feedURLs demo_world demo_source = Inr [?down, ?news]"
    by code_simp
  have eps: "endpoints demo_world 0 [demo_source] = [(demo_source, 0, ?down), (demo_source, 1, ?news)]"
    by (simp add: cfg enumerate_eq_zip upt_rec)
  have neq: "?down \<noteq> ?news"
    by code_simp
  have fail: "fetchRSS demo_dates demo_world 0 ?down = Inl (FetchError (js ''HTTP 503''))"
    using neq by (simp add: fetchRSS_def demo_world_def)
  have good: "fetchRSS demo_dates demo_world 1 ?news = Inr demo_entries"
    by (simp add: fetchRSS_def demo_world_def demo_entries_def)
  have x: "demo_items ! 0 \<in> set (fst (push_entries demo_dates demo_world demo_source 1 0 demo_entries))"
    unfolding demo_collected_def [symmetric] demo_collected_eq by (simp add: demo_items_def)
  have w: "in_window demo_dates (clock demo_world PostProcess) (demo_items ! 0)"
    by code_simp
  have k: "normalizeUrl demo_urls (url (demo_items ! 0)) = js ''https://a.example/x''"
    by code_simp
  have ne: "js ''https://a.example/x'' \<noteq> []"
    by (simp add: js_def)
  have b: "b_brand demo_source = js ''ABC''"
    by (simp add: demo_source_def)
  have h: "\<forall>b \<in> set [demo_source]. \<exists>fs. feedURLs demo_world b = Inr fs"
    using cfg by simp
  from feed_failure_isolated [where brands = "[demo_source]" and W = demo_world
      and D = demo_dates and api = demo_urls, OF h]
  obtain st where st:
    "collect demo_dates demo_world [demo_source] initial_state = Inr st
      \<and> main demo_urls demo_dates demo_world [demo_source]
          = Inr \<lparr> written = post_process demo_urls demo_dates demo_world (all st), ok = okFeeds st,
                  total = totalFeeds st, reported = feed_errors st \<rparr>
      \<and> totalFeeds st = length (endpoints demo_world 0 [demo_source])
      \<and> (\<forall>(b, n, f) \<in> set (endpoints demo_world 0 [demo_source]).
           (\<forall>e. fetchRSS demo_dates demo_world n f = Inl e \<longrightarrow> (b_brand b, f, e) \<in> set (feed_errors st))
         \<and> (\<forall>es. fetchRSS demo_dates demo_world n f = Inr es \<longrightarrow>
              (\<forall>x \<in> set (fst (push_entries demo_dates demo_world b n 0 es)).
                 x \<in> set (all st)
               \<and> (in_window demo_dates (clock demo_world PostProcess) x
                    \<and> normalizeUrl demo_urls (url x) \<noteq> [] \<longrightarrow>
                    normalizeUrl demo_urls (url x)
                      \<in> url ` set (post_process demo_urls demo_dates demo_world (all st))))))" ..
  then have m: "main demo_urls demo_dates demo_world [demo_source]
          = Inr \<lparr> written = post_process demo_urls demo_dates demo_world (all st), ok = okFeeds st,
                  total = totalFeeds st, reported = feed_errors st \<rparr>"
    and tot: "totalFeeds st = length (endpoints demo_world 0 [demo_source])"
    by simp_all
  note st' = st [unfolded eps]
  from st' have e0: "\<forall>e. fetchRSS demo_dates demo_world 0 ?down = Inl e \<longrightarrow>
      (b_brand demo_source, ?down, e) \<in> set (feed_errors st)"
    by simp
  from st' have e1: "\<forall>es. fetchRSS demo_dates demo_world 1 ?news = Inr es \<longrightarrow>
              (\<forall>x \<in> set (fst (push_entries demo_dates demo_world demo_source 1 0 es)).
                 x \<in> set (all st)
               \<and> (in_window demo_dates (clock demo_world PostProcess) x
                    \<and> normalizeUrl demo_urls (url x) \<noteq> [] \<longrightarrow>
                    normalizeUrl demo_urls (url x)
                      \<in> url ` set (post_process demo_urls demo_dates demo_world (all st))))"
    by simp
  from e0 fail b
  have r1: "(js ''ABC'', ?down, FetchError (js ''HTTP 503'')) \<in> set (feed_errors st)"
    by simp
  from e1 good x w k ne
  have r2: "js ''https://a.example/x''
      \<in> url ` set (post_process demo_urls demo_dates demo_world (all st))"
    by metis
  from m tot eps r1 r2 cfg fail good show ?thesis
    by simp
qed

end
